theory Spec2Isabelle
  imports Complex_Main
begin

section \<open>The solar backdrop of main.js\<close>

text \<open>
  The script of \<^verbatim>\<open>src/main.js\<close> is one closure: it looks up two elements,
  checks for WebGL, builds a three.js scene, and then reacts to three kinds of events
  (animation frames, changes of the reduced-motion media query, window resizes).
  The embedding below follows it line by line. The mutable closure variables are the
  fields of a state record that every function takes and returns, and the browser's list
  of animation frame callbacks is part of that state. Numbers are reals. The scene and
  the event handlers compute with them exactly, which is all that scheduling, sizing and
  the periodicity of the orbits need; the arithmetic of \<^verbatim>\<open>addPlanets\<close> and
  \<^verbatim>\<open>updatePositions\<close> is given a second time in IEEE double precision (the
  definitions named \<open>IEEE\<close>), where every operation rounds its result, for the
  properties that depend on the rounding.
\<close>

subsection \<open>Host values\<close>

text \<open>What one call of \<^verbatim>\<open>canvas.getContext\<close> does: it throws, returns null, or
  returns a rendering context.\<close>

datatype context_result = Throws | NoContext | Context

text \<open>The properties of \<^verbatim>\<open>window\<close> that \<^verbatim>\<open>applySize\<close> reads. The inner width
  and height are non-negative integers of CSS pixels; \<^verbatim>\<open>devicePixelRatio\<close> may be
  undefined (\<open>None\<close>).\<close>

record window =
  innerWidth :: nat
  innerHeight :: nat
  devicePixelRatio :: "real option"

text \<open>The result of a JavaScript division of two non-negative integers: a division by
  zero gives \<^verbatim>\<open>Infinity\<close> or \<^verbatim>\<open>NaN\<close>, not a number of HOL.\<close>

datatype js_number = Num real | PosInfinity | NotANumber

definition js_div :: "nat \<Rightarrow> nat \<Rightarrow> js_number" where
  "js_div a b =
     (if b = 0 then (if a = 0 then NotANumber else PosInfinity)
      else Num (real a / real b))"

record canvas_element =
  display :: string

record fallback_element =
  textContent :: string
  hidden :: bool

subsection \<open>Capability gate (lines 13 to 32)\<close>

definition showFallback :: "string \<Rightarrow> fallback_element option \<Rightarrow> fallback_element option" where
  "showFallback message fallbackEl =
     (case fallbackEl of
        None \<Rightarrow> None
      | Some el \<Rightarrow>
          Some ((if message \<noteq> [] then el\<lparr>textContent := message\<rparr> else el)\<lparr>hidden := False\<rparr>))"

text \<open>\<^verbatim>\<open>getContext('webgl') || getContext('experimental-webgl')\<close> inside a
  \<^verbatim>\<open>try\<close>: the second call is made only when the first returned null, and a throw
  of either is caught and answered with \<^verbatim>\<open>false\<close>.\<close>

definition isWebGLAvailable :: "context_result \<Rightarrow> context_result \<Rightarrow> bool" where
  "isWebGLAvailable webgl experimental =
     (case webgl of
        Throws \<Rightarrow> False
      | Context \<Rightarrow> True
      | NoContext \<Rightarrow>
          (case experimental of Throws \<Rightarrow> False | NoContext \<Rightarrow> False | Context \<Rightarrow> True))"

definition unavailableMessage :: string where
  "unavailableMessage = ''3D background isn't available on this device.''"

subsection \<open>Scene objects (lines 78 to 149)\<close>

text \<open>A row of \<^verbatim>\<open>planetData\<close>:
  \<^verbatim>\<open>[name, color1, color2, orbitRadius, size, speed, hasRing]\<close>.\<close>

type_synonym descriptor = "string \<times> string \<times> string \<times> real \<times> real \<times> real \<times> bool"

definition planetData :: "descriptor list" where
  "planetData =
     [(''Mercury'', ''#b2b2b2'', ''#6e6e6e'', 9, 0.7, 0.018, False),
      (''Venus'', ''#e0c16c'', ''#bfa24d'', 12, 1.1, 0.014, False),
      (''Earth'', ''#3a6ea5'', ''#1b3c5d'', 16, 1.2, 0.012, False),
      (''Mars'', ''#b5532a'', ''#7a2e13'', 20, 1.0, 0.010, False),
      (''Jupiter'', ''#e0a96d'', ''#b57c3a'', 26, 2.5, 0.008, False),
      (''Saturn'', ''#d2c295'', ''#b3a178'', 33, 2.2, 0.007, True),
      (''Uranus'', ''#7ad7f0'', ''#3a8ca5'', 39, 1.7, 0.006, True),
      (''Neptune'', ''#4062a7'', ''#22345d'', 45, 1.7, 0.005, False)]"

definition bodyName :: "descriptor \<Rightarrow> string" where
  "bodyName = (\<lambda>(name, color1, color2, orbitRadius, bodySize, speed, hasRing). name)"

definition bodyOrbitRadius :: "descriptor \<Rightarrow> real" where
  "bodyOrbitRadius = (\<lambda>(name, color1, color2, orbitRadius, bodySize, speed, hasRing). orbitRadius)"

definition bodySpeed :: "descriptor \<Rightarrow> real" where
  "bodySpeed = (\<lambda>(name, color1, color2, orbitRadius, bodySize, speed, hasRing). speed)"

definition bodyHasRing :: "descriptor \<Rightarrow> bool" where
  "bodyHasRing = (\<lambda>(name, color1, color2, orbitRadius, bodySize, speed, hasRing). hasRing)"

text \<open>A three.js vector; a new mesh stands at the origin.\<close>

record vector3 =
  vx :: real
  vy :: real
  vz :: real

definition origin :: vector3 where
  "origin = \<lparr>vx = 0, vy = 0, vz = 0\<rparr>"

record ring_mesh =
  innerRadius :: real
  outerRadius :: real
  thetaSegments :: nat
  ringColor :: nat
  ringOpacity :: real
  ringRotationX :: real

record mesh =
  sphereRadius :: real
  gradient :: "string \<times> string"
  position :: vector3
  ring :: "ring_mesh option"

record planet =
  mesh :: mesh
  orbitRadius :: real
  speed :: real
  phase :: real

text \<open>The body of the loop of \<^verbatim>\<open>addPlanets\<close> for one row; \<open>r\<close> is what
  \<^verbatim>\<open>Math.random()\<close> returned for this planet.\<close>

definition addPlanet :: "descriptor \<Rightarrow> real \<Rightarrow> planet" where
  "addPlanet = (\<lambda>(name, color1, color2, orbitRadius', bodySize, speed', hasRing) r.
     \<lparr>mesh =
        \<lparr>sphereRadius = bodySize,
         gradient = (color1, color2),
         position = origin,
         ring =
           (if hasRing then
              Some \<lparr>innerRadius = bodySize * 1.4,
                    outerRadius = bodySize * 2.2,
                    thetaSegments = 64,
                    ringColor = (if name = ''Saturn'' then 0xd2c295 else 0x8fc5e7),
                    ringOpacity = 0.6,
                    ringRotationX = pi / 2\<rparr>
            else None)\<rparr>,
      orbitRadius = orbitRadius',
      speed = speed',
      phase = r * pi * 2\<rparr>)"

text \<open>\<open>random i\<close> is the result of the \<open>i\<close>-th call of \<^verbatim>\<open>Math.random()\<close>;
  the loop makes one call per row, in order.\<close>

definition addPlanets :: "(nat \<Rightarrow> real) \<Rightarrow> planet list" where
  "addPlanets random = map (\<lambda>(i, d). addPlanet d (random i)) (enumerate 0 planetData)"

subsection \<open>The closure's state\<close>

text \<open>
  \<open>planets\<close>, \<open>sunRotationY\<close> (\<^verbatim>\<open>sun.rotation.y\<close>), \<open>reduceMotion\<close> and \<open>rafId\<close>
  are the closure's variables; \<open>pixelRatio\<close>, \<open>sizeW\<close>, \<open>sizeH\<close> belong to the
  renderer and \<open>aspect\<close> to the camera; \<open>draws\<close> counts the calls of
  \<^verbatim>\<open>renderer.render\<close>. \<open>pending\<close> is the browser's list of animation frame
  callbacks (their handles, oldest first) and \<open>lastHandle\<close> the browser's counter of
  handles: \<^verbatim>\<open>requestAnimationFrame\<close> increments it and returns it, so a handle is
  never 0.
\<close>

record state =
  planets :: "planet list"
  sunRotationY :: real
  pixelRatio :: real
  sizeW :: nat
  sizeH :: nat
  aspect :: js_number
  reduceMotion :: bool
  rafId :: nat
  draws :: nat
  pending :: "nat list"
  lastHandle :: nat

definition requestAnimationFrame :: "state \<Rightarrow> nat \<times> state" where
  "requestAnimationFrame s =
     (let h = Suc (lastHandle s)
      in (h, s\<lparr>lastHandle := h, pending := pending s @ [h]\<rparr>))"

definition cancelAnimationFrame :: "nat \<Rightarrow> state \<Rightarrow> state" where
  "cancelAnimationFrame h s = s\<lparr>pending := removeAll h (pending s)\<rparr>"

subsection \<open>Sizing (lines 40 to 46)\<close>

definition applySize :: "window \<Rightarrow> state \<Rightarrow> state" where
  "applySize w s =
     (let dpr = min (case devicePixelRatio w of
                       None \<Rightarrow> 1
                     | Some d \<Rightarrow> if d = 0 then 1 else d) 2
      in s\<lparr>pixelRatio := dpr,
            sizeW := innerWidth w,
            sizeH := innerHeight w,
            aspect := js_div (innerWidth w) (innerHeight w)\<rparr>)"

subsection \<open>Motion handling (lines 151 to 184)\<close>

definition movePlanet :: "real \<Rightarrow> planet \<Rightarrow> planet" where
  "movePlanet timeMs p =
     (let t = timeMs * speed p * 0.0005 + phase p
      in p\<lparr>mesh := (mesh p)\<lparr>position :=
              (position (mesh p))\<lparr>vx := cos t * orbitRadius p,
                                   vz := sin t * orbitRadius p\<rparr>\<rparr>\<rparr>)"

definition updatePositions :: "real \<Rightarrow> state \<Rightarrow> state" where
  "updatePositions timeMs s =
     s\<lparr>planets := map (movePlanet timeMs) (planets s),
       sunRotationY := sunRotationY s + 0.002\<rparr>"

definition renderFrame :: "state \<Rightarrow> state" where
  "renderFrame s = s\<lparr>draws := Suc (draws s)\<rparr>"

text \<open>\<open>now\<close> is what \<^verbatim>\<open>performance.now()\<close> returns inside the callback.\<close>

definition animate :: "real \<Rightarrow> state \<Rightarrow> state" where
  "animate now s =
     (if reduceMotion s then s
      else
        (let (h, s1) = requestAnimationFrame s;
             s2 = s1\<lparr>rafId := h\<rparr>;
             s3 = updatePositions now s2
         in renderFrame s3))"

definition startAnimation :: "state \<Rightarrow> state" where
  "startAnimation s =
     (if rafId s = 0 \<and> \<not> reduceMotion s then
        (let (h, s1) = requestAnimationFrame s in s1\<lparr>rafId := h\<rparr>)
      else s)"

definition stopAnimation :: "state \<Rightarrow> state" where
  "stopAnimation s =
     (let s1 = (if rafId s \<noteq> 0 then cancelAnimationFrame (rafId s) s else s);
          s2 = s1\<lparr>rafId := 0\<rparr>
      in renderFrame s2)"

subsection \<open>Startup (lines 8 to 11, 28 to 53, 146 to 154, 186 to 191)\<close>

text \<open>What the script finds when it runs: the two elements (or null), the outcome of
  the two \<^verbatim>\<open>getContext\<close> calls, the window, the state of the media query and the
  random numbers.\<close>

record host =
  canvasFound :: "canvas_element option"
  fallbackFound :: "fallback_element option"
  webgl :: context_result
  experimentalWebgl :: context_result
  win :: window
  prefersReducedMotion :: bool
  random :: "nat \<Rightarrow> real"

text \<open>The page once the script has run: the two elements and, when the scene was
  built and the listeners were registered, the closure's state.\<close>

record page =
  canvas :: "canvas_element option"
  fallbackEl :: "fallback_element option"
  component :: "state option"

text \<open>The state after lines 35 to 154. The renderer starts with pixel ratio 1 and the
  camera with the aspect given to its constructor; \<^verbatim>\<open>applySize\<close> (line 50) then sets
  all four sizing fields.\<close>

definition buildScene :: "host \<Rightarrow> state" where
  "buildScene h =
     applySize (win h)
       \<lparr>planets = addPlanets (random h),
        sunRotationY = 0,
        pixelRatio = 1,
        sizeW = innerWidth (win h),
        sizeH = innerHeight (win h),
        aspect = js_div (innerWidth (win h)) (innerHeight (win h)),
        reduceMotion = prefersReducedMotion h,
        rafId = 0,
        draws = 0,
        pending = [],
        lastHandle = 0\<rparr>"

definition main :: "host \<Rightarrow> page" where
  "main h =
     (case canvasFound h of
        None \<Rightarrow> \<lparr>canvas = None, fallbackEl = fallbackFound h, component = None\<rparr>
      | Some c \<Rightarrow>
          if \<not> isWebGLAvailable (webgl h) (experimentalWebgl h) then
            \<lparr>canvas = Some (c\<lparr>display := ''none''\<rparr>),
             fallbackEl = showFallback unavailableMessage (fallbackFound h),
             component = None\<rparr>
          else
            (let s = buildScene h
             in \<lparr>canvas = Some c,
                 fallbackEl = fallbackFound h,
                 component =
                   Some (if reduceMotion s then renderFrame (updatePositions 0 s)
                         else startAnimation s)\<rparr>))"

subsection \<open>Events (lines 193 to 203)\<close>

text \<open>The browser runs the animation frame callbacks: for each handle that was in the
  list when the frame began, if its callback is still in the list, it is removed and
  called. Every callback of this page is \<^verbatim>\<open>animate\<close>.\<close>

fun runCallbacks :: "real \<Rightarrow> nat list \<Rightarrow> state \<Rightarrow> state" where
  "runCallbacks now [] s = s"
| "runCallbacks now (h # hs) s =
     runCallbacks now hs
       (if h \<in> set (pending s)
        then animate now (s\<lparr>pending := removeAll h (pending s)\<rparr>)
        else s)"

datatype event = AnimationFrame real | MotionChange bool | Resize window

fun onEvent :: "event \<Rightarrow> state \<Rightarrow> state" where
  "onEvent (AnimationFrame now) s = runCallbacks now (pending s) s"
| "onEvent (MotionChange matches) s =
     (let s1 = s\<lparr>reduceMotion := matches\<rparr>
      in if reduceMotion s1 then stopAnimation s1 else startAnimation s1)"
| "onEvent (Resize w) s =
     (let s1 = applySize w s
      in if reduceMotion s1 then renderFrame s1 else s1)"

text \<open>The listeners exist only when the script reached lines 193 and 200.\<close>

definition dispatch :: "event \<Rightarrow> page \<Rightarrow> page" where
  "dispatch ev pg =
     (case component pg of
        None \<Rightarrow> pg
      | Some s \<Rightarrow> pg\<lparr>component := Some (onEvent ev s)\<rparr>)"

definition run :: "page \<Rightarrow> event list \<Rightarrow> page" where
  "run pg evs = foldl (\<lambda>p ev. dispatch ev p) pg evs"

text \<open>The frame callbacks that are scheduled on a page.\<close>

definition pendingCallbacks :: "page \<Rightarrow> nat list" where
  "pendingCallbacks pg = (case component pg of None \<Rightarrow> [] | Some s \<Rightarrow> pending s)"

subsection \<open>Double precision (lines 93 to 102, 126, 156 to 163)\<close>

text \<open>
  A JavaScript number is an IEEE 754 double: a real of the form \<open>m \<times> 2\<^sup>e\<close> with an
  integer \<open>m\<close> of at most 53 bits. Every arithmetic operation returns the double
  nearest to the exact result, a tie going to the even \<open>m\<close>, and a decimal literal
  denotes the double nearest to it. \<open>fl\<close> is that rounding: it scales the number so
  that its integer part has 53 bits, rounds to an integer, and scales back. The exponent
  is not bounded here, so overflow to \<^verbatim>\<open>Infinity\<close> and subnormal numbers are not
  modelled; the numbers of this page are far from both.
\<close>

definition roundEven :: "real \<Rightarrow> int" where
  "roundEven q =
     (let f = \<lfloor>q\<rfloor>
      in if q - of_int f < 1 / 2 then f
         else if 1 / 2 < q - of_int f then f + 1
         else if even f then f else f + 1)"

definition fl :: "real \<Rightarrow> real" where
  "fl x =
     (if x = 0 then 0
      else
        (let e = \<lfloor>log 2 \<bar>x\<bar>\<rfloor>
         in of_int (roundEven (x * 2 powi (52 - e))) * 2 powi (e - 52)))"

text \<open>\<^verbatim>\<open>addPlanets\<close> in doubles: the literals of \<open>planetData\<close> and
  \<^verbatim>\<open>Math.PI\<close> are rounded, and so is each product. \<open>r\<close> is the double that
  \<^verbatim>\<open>Math.random()\<close> returned.\<close>

definition addPlanetIEEE :: "descriptor \<Rightarrow> real \<Rightarrow> planet" where
  "addPlanetIEEE = (\<lambda>(name, color1, color2, orbitRadius', bodySize, speed', hasRing) r.
     \<lparr>mesh =
        \<lparr>sphereRadius = fl bodySize,
         gradient = (color1, color2),
         position = origin,
         ring =
           (if hasRing then
              Some \<lparr>innerRadius = fl (fl bodySize * fl 1.4),
                    outerRadius = fl (fl bodySize * fl 2.2),
                    thetaSegments = 64,
                    ringColor = (if name = ''Saturn'' then 0xd2c295 else 0x8fc5e7),
                    ringOpacity = fl 0.6,
                    ringRotationX = fl (fl pi / 2)\<rparr>
            else None)\<rparr>,
      orbitRadius = fl orbitRadius',
      speed = fl speed',
      phase = fl (fl (r * fl pi) * 2)\<rparr>)"

definition addPlanetsIEEE :: "(nat \<Rightarrow> real) \<Rightarrow> planet list" where
  "addPlanetsIEEE rnd = map (\<lambda>(i, d). addPlanetIEEE d (rnd i)) (enumerate 0 planetData)"

text \<open>\<^verbatim>\<open>updatePositions\<close> in doubles. The language standard leaves the accuracy of
  \<^verbatim>\<open>Math.cos\<close> and \<^verbatim>\<open>Math.sin\<close> to the implementation, so they are
  parameters; \<^verbatim>\<open>timeMs * p.speed * 0.5e-3 + p.phase\<close> rounds after each of its
  three operations, from left to right.\<close>

definition movePlanetIEEE :: "(real \<Rightarrow> real) \<Rightarrow> (real \<Rightarrow> real) \<Rightarrow> real \<Rightarrow> planet \<Rightarrow> planet" where
  "movePlanetIEEE mathCos mathSin timeMs p =
     (let t = fl (fl (fl (timeMs * speed p) * fl 0.0005) + phase p)
      in p\<lparr>mesh := (mesh p)\<lparr>position :=
              (position (mesh p))\<lparr>vx := fl (mathCos t * orbitRadius p),
                                   vz := fl (mathSin t * orbitRadius p)\<rparr>\<rparr>\<rparr>)"

definition updatePositionsIEEE ::
    "(real \<Rightarrow> real) \<Rightarrow> (real \<Rightarrow> real) \<Rightarrow> real \<Rightarrow> state \<Rightarrow> state" where
  "updatePositionsIEEE mathCos mathSin timeMs s =
     s\<lparr>planets := map (movePlanetIEEE mathCos mathSin timeMs) (planets s),
       sunRotationY := fl (sunRotationY s + fl 0.002)\<rparr>"

subsection \<open>Invariants and example inputs\<close>

text \<open>The scheduling invariant: while motion is reduced nothing is scheduled and the
  handle is cleared; otherwise exactly the callback named by \<open>rafId\<close> is scheduled.\<close>

definition scheduleOk :: "state \<Rightarrow> bool" where
  "scheduleOk s =
     (if reduceMotion s then rafId s = 0 \<and> pending s = []
      else rafId s \<noteq> 0 \<and> pending s = [rafId s])"

text \<open>The planets are those of \<open>planetData\<close>, row by row, and none has left the
  plane \<open>y = 0\<close>.\<close>

definition planetsOk :: "planet list \<Rightarrow> bool" where
  "planetsOk ps =
     list_all2 (\<lambda>d p. orbitRadius p = bodyOrbitRadius d \<and> speed p = bodySpeed d \<and>
                       vy (position (mesh p)) = 0) planetData ps"


text \<open>The planets have the orbit radii of \<open>planetData\<close>, row by row, and none has
  left the plane \<open>y = 0\<close> (nothing is asked of speed and phase).\<close>

definition orbitsOk :: "planet list \<Rightarrow> bool" where
  "orbitsOk ps =
     list_all2 (\<lambda>d p. orbitRadius p = bodyOrbitRadius d \<and> vy (position (mesh p)) = 0)
       planetData ps"

text \<open>A cosine and a sine that return the double nearest to the exact value.\<close>

definition roundedCos :: "real \<Rightarrow> real" where
  "roundedCos a = fl (cos a)"

definition roundedSin :: "real \<Rightarrow> real" where
  "roundedSin a = fl (sin a)"

text \<open>A page with both elements and WebGL, 800 by 600 at pixel ratio 3, motion not
  reduced, every random number 0.\<close>

definition demoHost :: host where
  "demoHost =
     \<lparr>canvasFound = Some \<lparr>display = ''block''\<rparr>,
      fallbackFound = Some \<lparr>textContent = [], hidden = True\<rparr>,
      webgl = Context,
      experimentalWebgl = NoContext,
      win = \<lparr>innerWidth = 800, innerHeight = 600, devicePixelRatio = Some 3\<rparr>,
      prefersReducedMotion = False,
      random = (\<lambda>i. 0)\<rparr>"

text \<open>The state of that page right after startup, and after the media query has then
  reported reduced motion.\<close>

definition demoRunning :: state where
  "demoRunning = startAnimation (buildScene demoHost)"

definition demoPaused :: state where
  "demoPaused = onEvent (MotionChange True) demoRunning"

text \<open>The same page when the first \<^verbatim>\<open>getContext\<close> returns null and the second
  throws.\<close>

definition demoNoWebGL :: host where
  "demoNoWebGL = demoHost\<lparr>webgl := NoContext, experimentalWebgl := Throws\<rparr>"

section \<open>Properties\<close>

subsection \<open>Running a page\<close>

lemma run_snoc: "run pg (evs @ [ev]) = dispatch ev (run pg evs)"
  by (simp add: run_def)

lemma run_Nil: "run pg [] = pg"
  by (simp add: run_def)

lemma run_Cons: "run pg (ev # evs) = run (dispatch ev pg) evs"
  by (simp add: run_def)

lemma scheduleOk_startAnimation: "scheduleOk s \<Longrightarrow> scheduleOk (startAnimation s)"
  by (auto simp: scheduleOk_def startAnimation_def requestAnimationFrame_def Let_def)

lemma scheduleOk_start_fresh:
  "rafId s = 0 \<Longrightarrow> pending s = [] \<Longrightarrow> scheduleOk (startAnimation s)"
  by (auto simp: scheduleOk_def startAnimation_def requestAnimationFrame_def Let_def)

lemma scheduleOk_stopAnimation:
  "reduceMotion s \<Longrightarrow> pending s = (if rafId s = 0 then [] else [rafId s]) \<Longrightarrow>
   scheduleOk (stopAnimation s)"
  by (auto simp: scheduleOk_def stopAnimation_def cancelAnimationFrame_def renderFrame_def Let_def)

lemma scheduleOk_animate:
  "\<not> reduceMotion s \<Longrightarrow> pending s = [] \<Longrightarrow> scheduleOk (animate now s)"
  by (auto simp: scheduleOk_def animate_def requestAnimationFrame_def updatePositions_def
      renderFrame_def Let_def)

lemma scheduleOk_frame: "scheduleOk s \<Longrightarrow> scheduleOk (onEvent (AnimationFrame now) s)"
proof (cases "reduceMotion s")
  case True
  assume "scheduleOk s"
  with True have "pending s = []" by (simp add: scheduleOk_def)
  with \<open>scheduleOk s\<close> show ?thesis by simp
next
  case False
  assume ok: "scheduleOk s"
  with False have p: "pending s = [rafId s]" by (simp add: scheduleOk_def)
  have "scheduleOk (animate now (s\<lparr>pending := []\<rparr>))"
    using False by (intro scheduleOk_animate) simp_all
  with p show ?thesis by simp
qed

lemma scheduleOk_onEvent: "scheduleOk s \<Longrightarrow> scheduleOk (onEvent ev s)"
proof (cases ev)
  case (AnimationFrame now)
  assume "scheduleOk s"
  then show ?thesis unfolding AnimationFrame by (rule scheduleOk_frame)
next
  case (MotionChange m)
  assume ok: "scheduleOk s"
  show ?thesis
  proof (cases m)
    case True
    have "scheduleOk (stopAnimation (s\<lparr>reduceMotion := True\<rparr>))"
      using ok by (intro scheduleOk_stopAnimation) (auto simp: scheduleOk_def split: if_splits)
    then show ?thesis by (simp add: MotionChange True)
  next
    case False
    have "scheduleOk (startAnimation (s\<lparr>reduceMotion := False\<rparr>))"
    proof (cases "reduceMotion s")
      case True
      with ok show ?thesis by (intro scheduleOk_start_fresh) (simp_all add: scheduleOk_def)
    next
      case False
      with ok have "s\<lparr>reduceMotion := False\<rparr> = s" by simp
      with ok show ?thesis by (simp add: scheduleOk_startAnimation)
    qed
    then show ?thesis by (simp add: MotionChange False)
  qed
next
  case (Resize w)
  assume "scheduleOk s"
  then show ?thesis
    by (auto simp: Resize scheduleOk_def applySize_def renderFrame_def Let_def split: if_splits)
qed

lemma scheduleOk_main: "component (main h) = Some s \<Longrightarrow> scheduleOk s"
  by (auto simp: main_def Let_def buildScene_def applySize_def scheduleOk_def renderFrame_def
      updatePositions_def startAnimation_def requestAnimationFrame_def
      split: option.splits if_splits)

lemma scheduleOk_run:
  "component (run (main h) evs) = Some s \<Longrightarrow> scheduleOk s"
proof (induction evs arbitrary: s rule: rev_induct)
  case Nil
  then show ?case by (simp add: run_Nil scheduleOk_main)
next
  case (snoc ev evs)
  from snoc.prems obtain s0 where s0: "component (run (main h) evs) = Some s0"
    and s: "s = onEvent ev s0"
    by (auto simp: run_snoc dispatch_def split: option.splits)
  from snoc.IH [OF s0] show ?case unfolding s by (rule scheduleOk_onEvent)
qed

lemma main_demoHost: "component (main demoHost) = Some demoRunning"
  by (simp add: main_def demoHost_def demoRunning_def isWebGLAvailable_def buildScene_def
      applySize_def Let_def)

lemma run_demo_paused: "component (run (main demoHost) [MotionChange True]) = Some demoPaused"
  by (simp add: run_Cons run_Nil dispatch_def main_demoHost demoPaused_def)

lemma reduceMotion_demoPaused: "reduceMotion demoPaused"
  by (simp add: demoPaused_def stopAnimation_def renderFrame_def cancelAnimationFrame_def Let_def)

subsection \<open>At most one frame callback\<close>

text \<open>
  Claim C9. Whatever the page and whatever the sequence of events after startup (frame
  callbacks, changes of the motion preference, resizes), at most one frame callback is
  scheduled in the state reached; since the sequence is arbitrary, this holds after
  every step.
\<close>

theorem at_most_one_pending: "length (pendingCallbacks (run (main h) evs)) \<le> 1"
proof (cases "component (run (main h) evs)")
  case None
  then show ?thesis by (simp add: pendingCallbacks_def)
next
  case (Some s)
  then have "scheduleOk s" by (rule scheduleOk_run)
  then have "length (pending s) \<le> 1" by (simp add: scheduleOk_def split: if_splits)
  with Some show ?thesis by (simp add: pendingCallbacks_def)
qed

text \<open>
  Claim C10. In every state reached from startup by any sequence of events, if the
  reduced-motion flag is set then the handle \<open>rafId\<close> is 0 and no frame callback is
  scheduled.
\<close>

theorem paused_has_no_frame:
  assumes "component (run (main h) evs) = Some s" and "reduceMotion s"
  shows "rafId s = 0 \<and> pending s = []"
proof -
  from assms(1) have "scheduleOk s" by (rule scheduleOk_run)
  with assms(2) show ?thesis by (simp add: scheduleOk_def)
qed

theorem paused_has_no_frame_witness:
  "component (run (main demoHost) [MotionChange True]) = Some demoPaused \<and>
   reduceMotion demoPaused \<and> rafId demoPaused = 0 \<and> pending demoPaused = []"
  using paused_has_no_frame [OF run_demo_paused reduceMotion_demoPaused]
    run_demo_paused reduceMotion_demoPaused
  by simp

subsection \<open>Pausing and resuming twice\<close>

lemma startAnimation_idem: "startAnimation (startAnimation s) = startAnimation s"
  by (simp add: startAnimation_def requestAnimationFrame_def Let_def)

lemma stopAnimation_again:
  "stopAnimation (stopAnimation s) = (stopAnimation s)\<lparr>draws := Suc (draws (stopAnimation s))\<rparr>"
  by (simp add: stopAnimation_def renderFrame_def cancelAnimationFrame_def Let_def)

lemma onEvent_pause: "onEvent (MotionChange True) s = stopAnimation (s\<lparr>reduceMotion := True\<rparr>)"
  by simp

lemma onEvent_resume: "onEvent (MotionChange False) s = startAnimation (s\<lparr>reduceMotion := False\<rparr>)"
  by simp

lemma reduceMotion_stopAnimation: "reduceMotion (stopAnimation s) = reduceMotion s"
  by (simp add: stopAnimation_def renderFrame_def cancelAnimationFrame_def Let_def)

lemma reduceMotion_startAnimation: "reduceMotion (startAnimation s) = reduceMotion s"
  by (simp add: startAnimation_def requestAnimationFrame_def Let_def)

lemma draws_stopAnimation: "draws (stopAnimation s) = Suc (draws s)"
  by (simp add: stopAnimation_def renderFrame_def cancelAnimationFrame_def Let_def)

lemma pending_demoPaused: "pending demoPaused = [] \<and> rafId demoPaused = 0 \<and> lastHandle demoPaused = 1"
  by (simp add: demoPaused_def demoRunning_def demoHost_def stopAnimation_def renderFrame_def
      cancelAnimationFrame_def startAnimation_def buildScene_def applySize_def
      requestAnimationFrame_def Let_def)

text \<open>
  The change listener with \<open>matches = true\<close> calls \<^verbatim>\<open>stopAnimation\<close>, whose
  \<^verbatim>\<open>renderFrame()\<close> is outside the guard on the handle. On the demo page, no draw has
  happened after startup, one has happened after the first pause, and two after the
  second: the second pause is not a no-op.
\<close>

theorem stop_twice_counterexample:
  "draws demoRunning = 0 \<and> draws (onEvent (MotionChange True) demoRunning) = 1 \<and>
   draws (onEvent (MotionChange True) (onEvent (MotionChange True) demoRunning)) = 2"
  by (simp add: draws_stopAnimation demoRunning_def demoHost_def startAnimation_def buildScene_def
      applySize_def requestAnimationFrame_def Let_def)

text \<open>
  Claim C3, as amended. From any state reached after startup, pausing twice in a row
  leaves no frame callback scheduled and the handle cleared after each of the two calls;
  each call draws once, so two draws are made in total, and the second call changes
  nothing but the count of draws.
\<close>

theorem stop_twice:
  assumes "component (run (main h) evs) = Some s"
  shows "let s1 = onEvent (MotionChange True) s;
             s2 = onEvent (MotionChange True) s1
         in pending s1 = [] \<and> rafId s1 = 0 \<and> draws s1 = draws s + 1 \<and>
            pending s2 = [] \<and> rafId s2 = 0 \<and> draws s2 = draws s + 2 \<and>
            s2 = s1\<lparr>draws := draws s1 + 1\<rparr>"
proof -
  define s1 where "s1 = onEvent (MotionChange True) s"
  define s2 where "s2 = onEvent (MotionChange True) s1"
  from assms have "scheduleOk s" by (rule scheduleOk_run)
  then have ok1: "scheduleOk s1" unfolding s1_def by (rule scheduleOk_onEvent)
  then have ok2: "scheduleOk s2" unfolding s2_def by (rule scheduleOk_onEvent)
  have r1: "reduceMotion s1"
    by (simp add: s1_def reduceMotion_stopAnimation)
  have r2: "reduceMotion s2"
    by (simp add: s2_def reduceMotion_stopAnimation)
  have d1: "draws s1 = draws s + 1"
    by (simp add: s1_def draws_stopAnimation)
  have s1r: "s1\<lparr>reduceMotion := True\<rparr> = s1" using r1 by simp
  have s1s: "s1 = stopAnimation (s\<lparr>reduceMotion := True\<rparr>)" by (simp add: s1_def)
  have "s2 = stopAnimation (s1\<lparr>reduceMotion := True\<rparr>)" by (simp add: s2_def)
  also have "\<dots> = stopAnimation s1" by (simp only: s1r)
  also have "\<dots> = s1\<lparr>draws := Suc (draws s1)\<rparr>"
    unfolding s1s by (rule stopAnimation_again)
  finally have e: "s2 = s1\<lparr>draws := draws s1 + 1\<rparr>" by simp
  have d2: "draws s2 = draws s + 2" using d1 by (subst e) simp
  from ok1 r1 ok2 r2 d1 d2 e show ?thesis
    unfolding Let_def s1_def [symmetric] s2_def [symmetric]
    by (simp add: scheduleOk_def)
qed

theorem stop_twice_witness:
  "component (run (main demoHost) []) = Some demoRunning \<and>
   pending demoRunning = [1] \<and>
   pending (onEvent (MotionChange True) (onEvent (MotionChange True) demoRunning)) = [] \<and>
   draws (onEvent (MotionChange True) (onEvent (MotionChange True) demoRunning))
     = draws demoRunning + 2"
proof -
  have r: "component (run (main demoHost) []) = Some demoRunning"
    by (simp add: run_Nil main_demoHost)
  have p: "pending demoRunning = [1]"
    by (simp add: demoRunning_def demoHost_def startAnimation_def buildScene_def applySize_def
        requestAnimationFrame_def Let_def)
  from stop_twice [OF r] r p show ?thesis by (simp add: Let_def)
qed

text \<open>
  Claim C6. From any state reached after startup, resuming twice in a row schedules
  exactly one frame callback: after the first call exactly the callback named by the
  handle is scheduled, and the second call leaves the state as it is.
\<close>

theorem start_twice:
  assumes "component (run (main h) evs) = Some s"
  shows "let s1 = onEvent (MotionChange False) s;
             s2 = onEvent (MotionChange False) s1
         in length (pending s1) = 1 \<and> pending s1 = [rafId s1] \<and> s2 = s1 \<and>
            length (pending s2) = 1"
proof -
  define s1 where "s1 = onEvent (MotionChange False) s"
  define s2 where "s2 = onEvent (MotionChange False) s1"
  from assms have "scheduleOk s" by (rule scheduleOk_run)
  then have ok1: "scheduleOk s1" unfolding s1_def by (rule scheduleOk_onEvent)
  have r1: "\<not> reduceMotion s1"
    by (simp add: s1_def reduceMotion_startAnimation)
  from ok1 r1 have p1: "pending s1 = [rafId s1]" by (simp add: scheduleOk_def)
  have s1r: "s1\<lparr>reduceMotion := False\<rparr> = s1" using r1 by simp
  have s1s: "s1 = startAnimation (s\<lparr>reduceMotion := False\<rparr>)" by (simp add: s1_def)
  have "s2 = startAnimation (s1\<lparr>reduceMotion := False\<rparr>)" by (simp add: s2_def)
  also have "\<dots> = startAnimation s1" by (simp only: s1r)
  also have "\<dots> = s1" unfolding s1s by (rule startAnimation_idem)
  finally have e: "s2 = s1" .
  from p1 e show ?thesis
    unfolding Let_def s1_def [symmetric] s2_def [symmetric] by simp
qed

theorem start_twice_witness:
  "component (run (main demoHost) [MotionChange True]) = Some demoPaused \<and>
   pending demoPaused = [] \<and>
   pending (onEvent (MotionChange False) (onEvent (MotionChange False) demoPaused)) = [2]"
proof -
  have "pending (onEvent (MotionChange False) demoPaused) = [2]"
    using pending_demoPaused by (simp add: startAnimation_def requestAnimationFrame_def Let_def)
  with start_twice [OF run_demo_paused] run_demo_paused pending_demoPaused
  show ?thesis by (simp add: Let_def)
qed

subsection \<open>Capability gate\<close>

lemma isWebGLAvailable_iff:
  "isWebGLAvailable a b \<longleftrightarrow> a = Context \<or> (a = NoContext \<and> b = Context)"
  by (cases a; cases b) (simp_all add: isWebGLAvailable_def)

lemma dispatch_no_component: "component pg = None \<Longrightarrow> dispatch ev pg = pg"
  by (simp add: dispatch_def)

lemma run_no_component: "component pg = None \<Longrightarrow> run pg evs = pg"
  by (induction evs arbitrary: pg) (simp_all add: run_Nil run_Cons dispatch_no_component)

text \<open>
  Claim C2. When the canvas exists and context acquisition yields nothing (the first
  call throws, or it returns null and the second call throws or returns null), then
  after startup and after any sequence of later events: the canvas is hidden
  (\<open>display = none\<close>), the fallback panel, if the page has one, has the
  unavailability message as its text and \<open>hidden = False\<close>, no scene was built, and
  no frame callback is scheduled.
\<close>

theorem gate_failure:
  assumes "canvasFound h = Some c"
    and "webgl h = Throws \<or> (webgl h = NoContext \<and> experimentalWebgl h \<noteq> Context)"
  shows "canvas (run (main h) evs) = Some (c\<lparr>display := ''none''\<rparr>) \<and>
         fallbackEl (run (main h) evs) =
           (case fallbackFound h of
              None \<Rightarrow> None
            | Some el \<Rightarrow> Some (el\<lparr>textContent := unavailableMessage, hidden := False\<rparr>)) \<and>
         component (run (main h) evs) = None \<and>
         pendingCallbacks (run (main h) evs) = []"
proof -
  from assms(2) have na: "\<not> isWebGLAvailable (webgl h) (experimentalWebgl h)"
    by (auto simp: isWebGLAvailable_iff)
  have m: "main h =
      \<lparr>canvas = Some (c\<lparr>display := ''none''\<rparr>),
       fallbackEl = showFallback unavailableMessage (fallbackFound h),
       component = None\<rparr>"
    using assms(1) na by (simp add: main_def)
  then have "component (main h) = None" by simp
  then have r: "run (main h) evs = main h" by (rule run_no_component)
  have f: "showFallback unavailableMessage (fallbackFound h) =
      (case fallbackFound h of
         None \<Rightarrow> None
       | Some el \<Rightarrow> Some (el\<lparr>textContent := unavailableMessage, hidden := False\<rparr>))"
    by (simp add: showFallback_def unavailableMessage_def split: option.splits)
  show ?thesis unfolding r by (simp add: m f pendingCallbacks_def)
qed

theorem gate_failure_witness:
  "canvas (run (main demoNoWebGL) [AnimationFrame 16, MotionChange False, Resize (win demoHost)])
     = Some \<lparr>display = ''none''\<rparr> \<and>
   fallbackEl (run (main demoNoWebGL) [AnimationFrame 16, MotionChange False, Resize (win demoHost)])
     = Some \<lparr>textContent = ''3D background isn't available on this device.'', hidden = False\<rparr> \<and>
   component (run (main demoNoWebGL) [AnimationFrame 16, MotionChange False, Resize (win demoHost)])
     = None \<and>
   pendingCallbacks (run (main demoNoWebGL) [AnimationFrame 16, MotionChange False, Resize (win demoHost)])
     = []"
proof -
  have c: "canvasFound demoNoWebGL = Some \<lparr>display = ''block''\<rparr>"
    by (simp add: demoNoWebGL_def demoHost_def)
  have g: "webgl demoNoWebGL = Throws \<or>
      (webgl demoNoWebGL = NoContext \<and> experimentalWebgl demoNoWebGL \<noteq> Context)"
    by (simp add: demoNoWebGL_def demoHost_def)
  have f: "fallbackFound demoNoWebGL = Some \<lparr>textContent = [], hidden = True\<rparr>"
    by (simp add: demoNoWebGL_def demoHost_def)
  from gate_failure [OF c g] show ?thesis
    by (simp add: f unavailableMessage_def)
qed

subsection \<open>Resize\<close>

lemma resize_pixelRatio_fallback:
  "devicePixelRatio w = None \<or> devicePixelRatio w = Some 0 \<Longrightarrow>
   pixelRatio (onEvent (Resize w) s) = 1"
  by (auto simp: applySize_def renderFrame_def Let_def)

text \<open>
  Claim C8. On a resize with a defined, non-zero device pixel ratio \<open>d\<close> and a
  non-zero inner height, the renderer's pixel ratio becomes \<open>min d 2\<close> (so at most 2),
  the renderer's size the window's inner size, the camera's aspect the quotient of inner
  width and inner height; one more draw is made exactly when motion is reduced (the
  paused state), and nothing is scheduled or cancelled.
\<close>

theorem resize_applies_size:
  assumes "devicePixelRatio w = Some d" and "d \<noteq> 0" and "innerHeight w \<noteq> 0"
  shows "pixelRatio (onEvent (Resize w) s) = min d 2 \<and>
         pixelRatio (onEvent (Resize w) s) \<le> 2 \<and>
         sizeW (onEvent (Resize w) s) = innerWidth w \<and>
         sizeH (onEvent (Resize w) s) = innerHeight w \<and>
         aspect (onEvent (Resize w) s) = Num (real (innerWidth w) / real (innerHeight w)) \<and>
         draws (onEvent (Resize w) s) = (if reduceMotion s then draws s + 1 else draws s) \<and>
         pending (onEvent (Resize w) s) = pending s \<and>
         rafId (onEvent (Resize w) s) = rafId s \<and>
         reduceMotion (onEvent (Resize w) s) = reduceMotion s"
  using assms by (simp add: applySize_def renderFrame_def js_div_def Let_def)

theorem resize_applies_size_witness:
  "pixelRatio (onEvent (Resize \<lparr>innerWidth = 800, innerHeight = 600, devicePixelRatio = Some 3\<rparr>) demoPaused) = 2 \<and>
   aspect (onEvent (Resize \<lparr>innerWidth = 800, innerHeight = 600, devicePixelRatio = Some 3\<rparr>) demoPaused) = Num (800 / 600) \<and>
   draws (onEvent (Resize \<lparr>innerWidth = 800, innerHeight = 600, devicePixelRatio = Some 3\<rparr>) demoPaused) = draws demoPaused + 1 \<and>
   draws (onEvent (Resize \<lparr>innerWidth = 800, innerHeight = 600, devicePixelRatio = Some 3\<rparr>) demoRunning) = draws demoRunning"
proof -
  let ?w = "\<lparr>innerWidth = 800, innerHeight = 600, devicePixelRatio = Some (3::real)\<rparr>"
  have d: "devicePixelRatio ?w = Some 3" by simp
  have n: "(3::real) \<noteq> 0" by simp
  have h: "innerHeight ?w \<noteq> 0" by simp
  have r: "\<not> reduceMotion demoRunning"
    by (simp add: demoRunning_def demoHost_def reduceMotion_startAnimation buildScene_def
        applySize_def Let_def)
  from resize_applies_size [OF d n h, of demoPaused] resize_applies_size [OF d n h, of demoRunning]
    reduceMotion_demoPaused r
  show ?thesis by simp
qed

subsection \<open>Ringed planets\<close>

text \<open>
  Two rows of \<open>planetData\<close> carry the ring flag, not one, and two of the planets
  built from them get a ring.
\<close>

theorem one_ring_counterexample:
  "length (filter bodyHasRing planetData) \<noteq> 1 \<and>
   length (filter (\<lambda>p. ring (mesh p) \<noteq> None) (addPlanets (\<lambda>i. 0))) \<noteq> 1"
  by (simp add: planetData_def bodyHasRing_def addPlanets_def addPlanet_def enumerate_eq_zip
      upt_rec)

text \<open>
  Claim C4, as amended. Exactly two of the eight descriptors, Saturn and Uranus, have the
  ring flag set, so exactly two planets (the sixth and the seventh) are built with a ring
  mesh attached, whatever the random phases.
\<close>

theorem two_ringed_planets:
  "length planetData = 8 \<and>
   map bodyName (filter bodyHasRing planetData) = [''Saturn'', ''Uranus''] \<and>
   map (\<lambda>p. ring (mesh p) \<noteq> None) (addPlanets rnd)
     = [False, False, False, False, False, True, True, False] \<and>
   length (filter (\<lambda>p. ring (mesh p) \<noteq> None) (addPlanets rnd)) = 2"
  by (simp add: planetData_def bodyHasRing_def bodyName_def addPlanets_def addPlanet_def
      enumerate_eq_zip upt_rec)

subsection \<open>Positions\<close>

lemma movePlanet_fields [simp]:
  "orbitRadius (movePlanet t p) = orbitRadius p"
  "speed (movePlanet t p) = speed p"
  "phase (movePlanet t p) = phase p"
  "vy (position (mesh (movePlanet t p))) = vy (position (mesh p))"
  by (simp_all add: movePlanet_def Let_def)

lemma movePlanet_xz:
  "vx (position (mesh (movePlanet t p))) = cos (t * speed p * 0.0005 + phase p) * orbitRadius p"
  "vz (position (mesh (movePlanet t p))) = sin (t * speed p * 0.0005 + phase p) * orbitRadius p"
  by (simp_all add: movePlanet_def Let_def)

lemma on_circle: "(cos a * r)\<^sup>2 + (sin a * r)\<^sup>2 = r\<^sup>2" for a r :: real
proof -
  have "(cos a * r)\<^sup>2 + (sin a * r)\<^sup>2 = ((cos a)\<^sup>2 + (sin a)\<^sup>2) * r\<^sup>2"
    by (simp only: power_mult_distrib distrib_right)
  also have "\<dots> = r\<^sup>2" by simp
  finally show ?thesis .
qed

lemma movePlanet_on_circle:
  "(vx (position (mesh (movePlanet t p))))\<^sup>2 + (vz (position (mesh (movePlanet t p))))\<^sup>2
     = (orbitRadius p)\<^sup>2"
  by (simp only: movePlanet_xz on_circle)

lemma movePlanet_overwrites: "movePlanet t (movePlanet t' p) = movePlanet t p"
  by (simp add: movePlanet_def Let_def)


lemma planetsOk_addPlanets: "planetsOk (addPlanets rnd)"
  by (simp add: planetsOk_def addPlanets_def addPlanet_def planetData_def enumerate_eq_zip
      upt_rec bodyOrbitRadius_def bodySpeed_def origin_def)

lemma planetsOk_move: "planetsOk ps \<Longrightarrow> planetsOk (map (movePlanet t) ps)"
  by (simp add: planetsOk_def list_all2_map2)

lemma planets_updatePositions: "planets (updatePositions t s) = map (movePlanet t) (planets s)"
  by (simp add: updatePositions_def)

lemma planets_startAnimation: "planets (startAnimation s) = planets s"
  by (simp add: startAnimation_def requestAnimationFrame_def Let_def)

lemma planets_stopAnimation: "planets (stopAnimation s) = planets s"
  by (simp add: stopAnimation_def cancelAnimationFrame_def renderFrame_def Let_def)

lemma planetsOk_animate: "planetsOk (planets s) \<Longrightarrow> planetsOk (planets (animate now s))"
  by (simp add: animate_def requestAnimationFrame_def renderFrame_def Let_def
      planets_updatePositions planetsOk_move)

lemma planetsOk_runCallbacks:
  "planetsOk (planets s) \<Longrightarrow> planetsOk (planets (runCallbacks now hs s))"
proof (induction hs arbitrary: s)
  case Nil
  then show ?case by simp
next
  case (Cons h hs)
  have "planetsOk (planets (animate now (s\<lparr>pending := removeAll h (pending s)\<rparr>)))"
    using Cons.prems by (intro planetsOk_animate) simp
  with Cons.prems show ?case by (simp add: Cons.IH)
qed

lemma planetsOk_onEvent: "planetsOk (planets s) \<Longrightarrow> planetsOk (planets (onEvent ev s))"
  by (cases ev)
    (simp_all add: planetsOk_runCallbacks planets_startAnimation planets_stopAnimation
      applySize_def renderFrame_def Let_def)

lemma planetsOk_main: "component (main h) = Some s \<Longrightarrow> planetsOk (planets s)"
  by (auto simp: main_def Let_def buildScene_def applySize_def renderFrame_def
      planets_updatePositions planets_startAnimation planetsOk_move planetsOk_addPlanets
      split: option.splits if_splits)

lemma planetsOk_run: "component (run (main h) evs) = Some s \<Longrightarrow> planetsOk (planets s)"
proof (induction evs arbitrary: s rule: rev_induct)
  case Nil
  then show ?case by (simp add: run_Nil planetsOk_main)
next
  case (snoc ev evs)
  from snoc.prems obtain s0 where s0: "component (run (main h) evs) = Some s0"
    and s: "s = onEvent ev s0"
    by (auto simp: run_snoc dispatch_def split: option.splits)
  from snoc.IH [OF s0] show ?case unfolding s by (rule planetsOk_onEvent)
qed

lemma length_planetData: "length planetData = 8"
  by (simp add: planetData_def)



text \<open>
  Over the reals, where nothing is rounded, the position update puts each of the eight
  planets on the circle of its descriptor's orbit radius in the plane \<open>y = 0\<close>.
\<close>

lemma planets_on_orbit_over_reals:
  assumes "component (run (main h) evs) = Some s"
  shows "length planetData = 8 \<and>
         list_all2
           (\<lambda>d p. (vx (position (mesh p)))\<^sup>2 + (vz (position (mesh p)))\<^sup>2 = (bodyOrbitRadius d)\<^sup>2 \<and>
                  vy (position (mesh p)) = 0)
           planetData (planets (updatePositions t s))"
proof -
  from assms have "planetsOk (planets s)" by (rule planetsOk_run)
  then have "list_all2
      (\<lambda>d p. (vx (position (mesh (movePlanet t p))))\<^sup>2 + (vz (position (mesh (movePlanet t p))))\<^sup>2
                = (bodyOrbitRadius d)\<^sup>2 \<and>
              vy (position (mesh (movePlanet t p))) = 0)
      planetData (planets s)"
    unfolding planetsOk_def
    by (rule list_all2_mono) (simp add: movePlanet_on_circle)
  then show ?thesis
    by (simp add: length_planetData planets_updatePositions list_all2_map2)
qed



subsection \<open>Rounding to doubles\<close>

lemma roundEven_near: "\<bar>of_int (roundEven q) - q\<bar> \<le> 1 / 2"
proof -
  have "of_int \<lfloor>q\<rfloor> \<le> q" "q < of_int \<lfloor>q\<rfloor> + 1" by linarith+
  then show ?thesis by (auto simp: roundEven_def Let_def)
qed

lemma roundEven_of_int [simp]: "roundEven (of_int m) = m"
  by (simp add: roundEven_def)

lemma fl_0 [simp]: "fl 0 = 0"
  by (simp add: fl_def)

lemma powr_powi_2:
  "2 powr (of_int e) = (2::real) powi e" "2 powr (of_int e + 1) = (2::real) powi (e + 1)"
  using powr_real_of_int' [of 2 e] powr_real_of_int' [of 2 "e + 1"] by simp_all

lemma floor_log2_iff:
  assumes "0 < x"
  shows "\<lfloor>log 2 x\<rfloor> = e \<longleftrightarrow> 2 powi e \<le> x \<and> x < 2 powi (e + 1)"
  using floor_log_eq_powr_iff [OF assms, of 2 e] by (simp add: powr_powi_2)

lemma floor_log2_bounds:
  assumes "x \<noteq> 0"
  shows "2 powi \<lfloor>log 2 \<bar>x\<bar>\<rfloor> \<le> \<bar>x\<bar>" and "\<bar>x\<bar> < 2 powi (\<lfloor>log 2 \<bar>x\<bar>\<rfloor> + 1)"
proof -
  from assms have p: "0 < \<bar>x\<bar>" by simp
  from floor_log2_iff [OF p, of "\<lfloor>log 2 \<bar>x\<bar>\<rfloor>"]
  show "2 powi \<lfloor>log 2 \<bar>x\<bar>\<rfloor> \<le> \<bar>x\<bar>" and "\<bar>x\<bar> < 2 powi (\<lfloor>log 2 \<bar>x\<bar>\<rfloor> + 1)"
    by simp_all
qed

lemma fl_error_abs:
  assumes "x \<noteq> 0"
  shows "\<bar>fl x - x\<bar> \<le> 2 powi (\<lfloor>log 2 \<bar>x\<bar>\<rfloor> - 53)"
proof -
  define e where "e = \<lfloor>log 2 \<bar>x\<bar>\<rfloor>"
  define q where "q = x * 2 powi (52 - e)"
  have x: "x = q * 2 powi (e - 52)"
    by (simp add: q_def flip: power_int_add)
  have f: "fl x = of_int (roundEven q) * 2 powi (e - 52)"
    using assms by (simp add: fl_def e_def q_def Let_def)
  from f x have "fl x - x = of_int (roundEven q) * 2 powi (e - 52) - q * 2 powi (e - 52)"
    by linarith
  then have "fl x - x = (of_int (roundEven q) - q) * 2 powi (e - 52)"
    by (simp only: left_diff_distrib)
  then have "\<bar>fl x - x\<bar> = \<bar>of_int (roundEven q) - q\<bar> * 2 powi (e - 52)"
    by (simp add: abs_mult)
  also have "\<dots> \<le> 1 / 2 * 2 powi (e - 52)"
    by (intro mult_right_mono roundEven_near) simp
  also have "\<dots> = 2 powi (e - 53)"
    by (simp add: power_int_diff)
  finally show ?thesis by (simp add: e_def)
qed

lemma fl_error: "\<bar>fl x - x\<bar> \<le> \<bar>x\<bar> / 2 ^ 53"
proof (cases "x = 0")
  case True
  then show ?thesis by simp
next
  case False
  define e where "e = \<lfloor>log 2 \<bar>x\<bar>\<rfloor>"
  have "\<bar>fl x - x\<bar> \<le> 2 powi (e - 53)"
    unfolding e_def using False by (rule fl_error_abs)
  also have "\<dots> = 2 powi e / 2 ^ 53"
    by (simp add: power_int_diff)
  also have "\<dots> \<le> \<bar>x\<bar> / 2 ^ 53"
    using floor_log2_bounds(1) [OF False] by (simp add: e_def divide_right_mono)
  finally show ?thesis .
qed

lemma fl_pos: "0 < x \<Longrightarrow> 0 < fl x"
proof -
  assume x: "0 < x"
  define u where "u = x / 2 ^ 53"
  have "\<bar>fl x - x\<bar> \<le> u" using fl_error [of x] x by (simp add: u_def)
  moreover have "u < x" using x by (simp add: u_def divide_less_eq)
  ultimately show ?thesis by linarith
qed

lemma fl_le_double: "0 \<le> x \<Longrightarrow> fl x \<le> 2 * x"
proof -
  assume x: "0 \<le> x"
  define u where "u = x / 2 ^ 53"
  have "\<bar>fl x - x\<bar> \<le> u" using fl_error [of x] x by (simp add: u_def)
  moreover have "u \<le> x" using x by (simp add: u_def divide_le_eq)
  ultimately show ?thesis by linarith
qed

lemma fl_dyadic: "\<exists>(m::int) (k::nat). fl x = of_int m / 2 ^ k"
proof (cases "x = 0")
  case True
  then have "fl x = of_int 0 / 2 ^ 0" by simp
  then show ?thesis by blast
next
  case False
  define e where "e = \<lfloor>log 2 \<bar>x\<bar>\<rfloor>"
  define r where "r = roundEven (x * 2 powi (52 - e))"
  have f: "fl x = of_int r * 2 powi (e - 52)"
    using False by (simp add: fl_def e_def r_def Let_def)
  show ?thesis
  proof (cases "0 \<le> e - 52")
    case True
    then have "fl x = of_int (r * 2 ^ nat (e - 52)) / 2 ^ 0"
      by (simp add: f power_int_def)
    then show ?thesis by blast
  next
    case False
    then have "fl x = of_int r / 2 ^ nat (52 - e)"
      by (simp add: f power_int_def field_simps)
    then show ?thesis by blast
  qed
qed

lemma fl_eval:
  assumes "0 < x" and "2 powi e \<le> x" and "x < 2 powi (e + 1)"
  shows "fl x = of_int (roundEven (x * 2 powi (52 - e))) * 2 powi (e - 52)"
proof -
  have "\<lfloor>log 2 x\<rfloor> = e"
    using assms by (simp add: floor_log2_iff)
  with assms(1) show ?thesis by (simp add: fl_def Let_def)
qed

lemma fl_upper: "0 \<le> x \<Longrightarrow> x \<le> b \<Longrightarrow> fl x \<le> 1001 / 1000 * b"
proof -
  assume x: "0 \<le> x" and b: "x \<le> b"
  define u where "u = x / 2 ^ 53"
  have "\<bar>fl x - x\<bar> \<le> u" using fl_error [of x] x by (simp add: u_def)
  moreover have "u \<le> x / 1000" using x by (simp add: u_def)
  ultimately show ?thesis using b by linarith
qed

lemma fl_small_int:
  assumes "0 < x" and "2 powi e \<le> x" and "x < 2 powi (e + 1)"
    and "x * 2 powi (52 - e) = of_int m"
  shows "fl x = x"
proof -
  have "fl x = of_int m * 2 powi (e - 52)"
    by (simp add: fl_eval [OF assms(1-3)] assms(4))
  also have "\<dots> = x * 2 powi (52 - e) * 2 powi (e - 52)"
    by (simp only: assms(4))
  also have "\<dots> = x"
    by (simp add: mult.assoc flip: power_int_add)
  finally show ?thesis .
qed

subsection \<open>Sums of two squares\<close>

text \<open>The only ways to write \<open>9 \<times> 4\<^sup>n\<close> as a sum of two squares have a zero
  summand; hence no point with two positive dyadic coordinates lies on the circle of
  radius 12.\<close>

lemma two_squares_9: "a\<^sup>2 + b\<^sup>2 = 9 \<Longrightarrow> a = 0 \<or> b = 0" for a b :: nat
proof -
  assume e: "a\<^sup>2 + b\<^sup>2 = 9"
  have "a\<^sup>2 \<le> 3\<^sup>2" "b\<^sup>2 \<le> 3\<^sup>2" using e by simp_all
  then have "a \<le> 3" "b \<le> 3" by (simp_all only: power2_nat_le_eq_le)
  then have "a \<in> {0, 1, 2, 3}" "b \<in> {0, 1, 2, 3}" by auto
  with e show ?thesis by auto
qed

lemma even_of_sum_squares:
  fixes a b m :: nat
  assumes "a\<^sup>2 + b\<^sup>2 = 4 * m"
  shows "even a \<and> even b"
proof -
  have odd_sq: "(2 * k + 1)\<^sup>2 = 4 * (k * k + k) + 1" for k :: nat
    by (simp add: power2_eq_square algebra_simps)
  have even_sq: "(2 * k)\<^sup>2 = 4 * (k * k)" for k :: nat
    by (simp add: power2_eq_square)
  show ?thesis
  proof (rule ccontr)
    assume "\<not> (even a \<and> even b)"
    then consider "odd a" "odd b" | "odd a" "even b" | "even a" "odd b" by blast
    then show False
    proof cases
      case 1
      then obtain j k where "a = 2 * j + 1" "b = 2 * k + 1" by (auto elim!: oddE)
      with assms have "4 * (j * j + j) + 1 + (4 * (k * k + k) + 1) = 4 * m"
        by (simp only: odd_sq)
      then show False by presburger
    next
      case 2
      then obtain j k where "a = 2 * j + 1" "b = 2 * k" by (auto elim!: oddE evenE)
      with assms have "4 * (j * j + j) + 1 + 4 * (k * k) = 4 * m"
        by (simp only: odd_sq even_sq)
      then show False by presburger
    next
      case 3
      then obtain j k where "a = 2 * j" "b = 2 * k + 1" by (auto elim!: oddE evenE)
      with assms have "4 * (j * j) + (4 * (k * k + k) + 1) = 4 * m"
        by (simp only: odd_sq even_sq)
      then show False by presburger
    qed
  qed
qed

lemma two_squares_9_pow4: "a\<^sup>2 + b\<^sup>2 = 9 * 4 ^ n \<Longrightarrow> a = 0 \<or> b = 0" for a b :: nat
proof (induction n arbitrary: a b)
  case 0
  then show ?case by (simp add: two_squares_9)
next
  case (Suc n)
  then have e: "a\<^sup>2 + b\<^sup>2 = 4 * (9 * 4 ^ n)" by simp
  then have "even a \<and> even b" by (rule even_of_sum_squares)
  then obtain j k where jk: "a = 2 * j" "b = 2 * k" by (auto elim!: evenE)
  with e have "j\<^sup>2 + k\<^sup>2 = 9 * 4 ^ n" by (simp add: power2_eq_square)
  then have "j = 0 \<or> k = 0" by (rule Suc.IH)
  with jk show ?case by auto
qed

lemma pow2_sq: "((2::real) ^ n)\<^sup>2 = 4 ^ n"
proof -
  have "(4::real) ^ n = (2 * 2) ^ n" by simp
  also have "\<dots> = 2 ^ n * 2 ^ n" by (simp only: power_mult_distrib)
  finally show ?thesis by (simp add: power2_eq_square)
qed

lemma no_dyadic_point_on_circle_12:
  fixes a b :: int and j k :: nat
  assumes "0 < a" and "0 < b"
  shows "(of_int a / 2 ^ j)\<^sup>2 + (of_int b / 2 ^ k)\<^sup>2 \<noteq> (12::real)\<^sup>2"
proof
  assume e: "(of_int a / 2 ^ j)\<^sup>2 + (of_int b / 2 ^ k)\<^sup>2 = (12::real)\<^sup>2"
  define A where "A = nat a * 2 ^ k"
  define B where "B = nat b * 2 ^ j"
  have a: "(of_int a :: real) = real (nat a)" and b: "(of_int b :: real) = real (nat b)"
    using assms by simp_all
  have "(real A)\<^sup>2 + (real B)\<^sup>2
      = ((of_int a / 2 ^ j)\<^sup>2 + (of_int b / 2 ^ k)\<^sup>2) * (2 ^ (j + k))\<^sup>2"
    by (simp add: A_def B_def a b power_add power_mult_distrib power_divide field_simps)
  also have "\<dots> = 12\<^sup>2 * (2 ^ (j + k))\<^sup>2" by (simp only: e)
  also have "\<dots> = real (9 * 4 ^ (j + k + 2))"
    by (simp add: pow2_sq)
  finally have "real (A\<^sup>2 + B\<^sup>2) = real (9 * 4 ^ (j + k + 2))" by simp
  then have "A\<^sup>2 + B\<^sup>2 = 9 * 4 ^ (j + k + 2)" by (simp only: of_nat_eq_iff)
  then have "A = 0 \<or> B = 0" by (rule two_squares_9_pow4)
  with assms show False by (simp add: A_def B_def)
qed

subsection \<open>Distance from the circle\<close>

lemma sq_near:
  fixes X y :: real
  assumes "\<bar>X - y\<bar> \<le> h * R" and "\<bar>y\<bar> \<le> R" and "0 \<le> h"
  shows "\<bar>X\<^sup>2 - y\<^sup>2\<bar> \<le> h * (2 + h) * R\<^sup>2"
proof -
  have R: "0 \<le> R" using assms(2) by linarith
  have "\<bar>X + y\<bar> \<le> \<bar>X - y\<bar> + 2 * \<bar>y\<bar>" by linarith
  also have "\<dots> \<le> h * R + 2 * R" using assms by linarith
  finally have s: "\<bar>X + y\<bar> \<le> h * R + 2 * R" .
  have "X\<^sup>2 - y\<^sup>2 = (X - y) * (X + y)" by (simp add: power2_eq_square algebra_simps)
  then have "\<bar>X\<^sup>2 - y\<^sup>2\<bar> = \<bar>X - y\<bar> * \<bar>X + y\<bar>" by (simp add: abs_mult)
  also have "\<dots> \<le> (h * R) * (h * R + 2 * R)"
    using assms(1) s by (intro mult_mono) (simp_all add: R assms(3))
  also have "\<dots> = h * (2 + h) * R\<^sup>2" by (simp add: power2_eq_square algebra_simps)
  finally show ?thesis .
qed

lemma fl_product_near:
  fixes C c r :: real
  assumes "\<bar>C - c\<bar> \<le> 1 / 2 ^ 52" and "\<bar>c\<bar> \<le> 1"
  shows "\<bar>fl (C * r) - c * r\<bar> \<le> 1 / 2 ^ 51 * \<bar>r\<bar>"
proof -
  have "(1::real) / 2 ^ 52 \<le> 1" by simp
  with assms have C: "\<bar>C\<bar> \<le> 2" by linarith
  have "\<bar>fl (C * r) - C * r\<bar> \<le> \<bar>C * r\<bar> / 2 ^ 53" by (rule fl_error)
  also have "\<dots> = \<bar>C\<bar> * (\<bar>r\<bar> / 2 ^ 53)" by (simp add: abs_mult)
  also have "\<dots> \<le> 2 * (\<bar>r\<bar> / 2 ^ 53)" using C by (intro mult_right_mono) simp_all
  finally have 1: "\<bar>fl (C * r) - C * r\<bar> \<le> 1 / 2 ^ 52 * \<bar>r\<bar>" by simp
  have "C * r - c * r = (C - c) * r" by (simp only: left_diff_distrib)
  then have "\<bar>C * r - c * r\<bar> = \<bar>C - c\<bar> * \<bar>r\<bar>" by (simp only: abs_mult)
  also have "\<dots> \<le> 1 / 2 ^ 52 * \<bar>r\<bar>" using assms(1) by (intro mult_right_mono) simp_all
  finally have 2: "\<bar>C * r - c * r\<bar> \<le> 1 / 2 ^ 52 * \<bar>r\<bar>" .
  have "\<bar>fl (C * r) - c * r\<bar> \<le> \<bar>fl (C * r) - C * r\<bar> + \<bar>C * r - c * r\<bar>" by linarith
  also have "\<dots> \<le> 1 / 2 ^ 52 * \<bar>r\<bar> + 1 / 2 ^ 52 * \<bar>r\<bar>" using 1 2 by linarith
  also have "\<dots> = 1 / 2 ^ 51 * \<bar>r\<bar>" by simp
  finally show ?thesis .
qed

lemma near_circle:
  fixes C S a r :: real
  assumes "\<bar>C - cos a\<bar> \<le> 1 / 2 ^ 52" and "\<bar>S - sin a\<bar> \<le> 1 / 2 ^ 52"
  shows "\<bar>(fl (C * r))\<^sup>2 + (fl (S * r))\<^sup>2 - r\<^sup>2\<bar> \<le> r\<^sup>2 / 2 ^ 48"
proof -
  define h :: real where "h = 1 / 2 ^ 51"
  have h: "0 \<le> h" by (simp add: h_def)
  have x: "\<bar>(fl (C * r))\<^sup>2 - (cos a * r)\<^sup>2\<bar> \<le> h * (2 + h) * \<bar>r\<bar>\<^sup>2"
    using fl_product_near [OF assms(1), of r] h
    by (intro sq_near) (simp_all add: h_def abs_mult mult_left_le_one_le)
  have z: "\<bar>(fl (S * r))\<^sup>2 - (sin a * r)\<^sup>2\<bar> \<le> h * (2 + h) * \<bar>r\<bar>\<^sup>2"
    using fl_product_near [OF assms(2), of r] h
    by (intro sq_near) (simp_all add: h_def abs_mult mult_left_le_one_le)
  have "(cos a * r)\<^sup>2 + (sin a * r)\<^sup>2 = r\<^sup>2"
  proof -
    have "(cos a * r)\<^sup>2 + (sin a * r)\<^sup>2 = ((cos a)\<^sup>2 + (sin a)\<^sup>2) * r\<^sup>2"
      by (simp only: power_mult_distrib distrib_right)
    then show ?thesis by simp
  qed
  then have "\<bar>(fl (C * r))\<^sup>2 + (fl (S * r))\<^sup>2 - r\<^sup>2\<bar>
      \<le> \<bar>(fl (C * r))\<^sup>2 - (cos a * r)\<^sup>2\<bar> + \<bar>(fl (S * r))\<^sup>2 - (sin a * r)\<^sup>2\<bar>"
    by linarith
  also have "\<dots> \<le> 2 * (h * (2 + h)) * r\<^sup>2" using x z by simp
  also have "\<dots> \<le> r\<^sup>2 / 2 ^ 48"
  proof -
    have "2 * (h * (2 + h)) \<le> 1 / 2 ^ 48" by (simp add: h_def)
    then have "2 * (h * (2 + h)) * r\<^sup>2 \<le> 1 / 2 ^ 48 * r\<^sup>2"
      by (intro mult_right_mono) simp_all
    then show ?thesis by simp
  qed
  finally show ?thesis .
qed

subsection \<open>Positions in doubles\<close>

lemma fl_radii:
  "fl 9 = 9" "fl 12 = 12" "fl 16 = 16" "fl 20 = 20" "fl 26 = 26" "fl 33 = 33" "fl 39 = 39"
  "fl 45 = 45"
proof -
  show "fl 9 = 9" by (rule fl_small_int [where e = 3 and m = "9 * 2 ^ 49"]) simp_all
  show "fl 12 = 12" by (rule fl_small_int [where e = 3 and m = "12 * 2 ^ 49"]) simp_all
  show "fl 16 = 16" by (rule fl_small_int [where e = 4 and m = "16 * 2 ^ 48"]) simp_all
  show "fl 20 = 20" by (rule fl_small_int [where e = 4 and m = "20 * 2 ^ 48"]) simp_all
  show "fl 26 = 26" by (rule fl_small_int [where e = 4 and m = "26 * 2 ^ 48"]) simp_all
  show "fl 33 = 33" by (rule fl_small_int [where e = 5 and m = "33 * 2 ^ 47"]) simp_all
  show "fl 39 = 39" by (rule fl_small_int [where e = 5 and m = "39 * 2 ^ 47"]) simp_all
  show "fl 45 = 45" by (rule fl_small_int [where e = 5 and m = "45 * 2 ^ 47"]) simp_all
qed

lemma orbitsOk_addPlanetsIEEE: "orbitsOk (addPlanetsIEEE rnd)"
  by (simp add: orbitsOk_def addPlanetsIEEE_def addPlanetIEEE_def planetData_def
      enumerate_eq_zip upt_rec bodyOrbitRadius_def origin_def fl_radii)

lemma movePlanetIEEE_fields [simp]:
  "orbitRadius (movePlanetIEEE c s t p) = orbitRadius p"
  "speed (movePlanetIEEE c s t p) = speed p"
  "phase (movePlanetIEEE c s t p) = phase p"
  "vy (position (mesh (movePlanetIEEE c s t p))) = vy (position (mesh p))"
  by (simp_all add: movePlanetIEEE_def Let_def)

lemma movePlanetIEEE_xz:
  "vx (position (mesh (movePlanetIEEE c s t p)))
     = fl (c (fl (fl (fl (t * speed p) * fl 0.0005) + phase p)) * orbitRadius p)"
  "vz (position (mesh (movePlanetIEEE c s t p)))
     = fl (s (fl (fl (fl (t * speed p) * fl 0.0005) + phase p)) * orbitRadius p)"
  by (simp_all add: movePlanetIEEE_def Let_def)

lemma movePlanetIEEE_overwrites:
  "movePlanetIEEE c s t (movePlanetIEEE c s t' p) = movePlanetIEEE c s t p"
  by (simp add: movePlanetIEEE_def Let_def)

lemma orbitsOk_moveIEEE: "orbitsOk ps \<Longrightarrow> orbitsOk (map (movePlanetIEEE c s t) ps)"
  by (simp add: orbitsOk_def list_all2_map2)

lemma planets_updatePositionsIEEE:
  "planets (updatePositionsIEEE c s t st) = map (movePlanetIEEE c s t) (planets st)"
  by (simp add: updatePositionsIEEE_def)

lemma sun_updatePositionsIEEE:
  "sunRotationY (updatePositionsIEEE c s t st) = fl (sunRotationY st + fl 0.002)"
  by (simp add: updatePositionsIEEE_def)

lemma orbitsOk_foldIEEE:
  "orbitsOk (planets st) \<Longrightarrow>
   orbitsOk (planets (foldl (\<lambda>st t. updatePositionsIEEE c s t st) st ts))"
  by (induction ts rule: rev_induct)
    (simp_all add: planets_updatePositionsIEEE orbitsOk_moveIEEE)

lemma planets_foldIEEE_last:
  "planets (foldl (\<lambda>st t. updatePositionsIEEE c s t st) st (ts @ [t]))
     = planets (updatePositionsIEEE c s t st)"
proof -
  have "planets (updatePositionsIEEE c s t (foldl (\<lambda>st t. updatePositionsIEEE c s t st) st ts))
      = planets (updatePositionsIEEE c s t st)"
    by (induction ts rule: rev_induct)
      (simp_all add: planets_updatePositionsIEEE movePlanetIEEE_overwrites comp_def)
  then show ?thesis by simp
qed

lemma sun_foldIEEE:
  "sunRotationY (foldl (\<lambda>st t. updatePositionsIEEE c s t st) st ts)
     = ((\<lambda>y. fl (y + fl 0.002)) ^^ length ts) (sunRotationY st)"
  by (induction ts rule: rev_induct) (simp_all add: sun_updatePositionsIEEE)

lemma accumulate_error:
  fixes d y0 :: real
  assumes "0 \<le> d"
  shows "\<bar>((\<lambda>y. fl (y + d)) ^^ n) y0 - (y0 + d * real n)\<bar>
           \<le> ((1 + 1 / 2 ^ 53) ^ n - 1) * (\<bar>y0\<bar> + d * real n)"
proof (induction n)
  case 0
  then show ?case by simp
next
  case (Suc n)
  define u :: real where "u = 1 / 2 ^ 53"
  define y where "y = ((\<lambda>y. fl (y + d)) ^^ n) y0"
  define E where "E = \<bar>y - (y0 + d * real n)\<bar>"
  define M where "M = \<bar>y0\<bar> + d * real (Suc n)"
  define P where "P = (1 + u) ^ n"
  have u: "0 \<le> u" by (simp add: u_def)
  have P: "1 \<le> P" unfolding P_def using u by (intro one_le_power) simp
  have M: "0 \<le> M" using assms by (simp add: M_def)
  have "\<bar>y0\<bar> + d * real n \<le> M" using assms by (simp add: M_def algebra_simps)
  then have "(P - 1) * (\<bar>y0\<bar> + d * real n) \<le> (P - 1) * M"
    using P by (intro mult_left_mono) simp_all
  with Suc.IH have E: "E \<le> (P - 1) * M"
    by (simp add: E_def y_def P_def u_def)
  have "\<bar>fl (y + d) - (y + d)\<bar> \<le> \<bar>y + d\<bar> / 2 ^ 53" by (rule fl_error)
  then have r: "\<bar>fl (y + d) - (y + d)\<bar> \<le> u * \<bar>y + d\<bar>" by (simp add: u_def)
  have T: "0 \<le> d * real n" using assms by simp
  have S: "d * real (Suc n) = d * real n + d" by (simp add: algebra_simps)
  have "\<bar>y + d\<bar> \<le> E + M" using assms T unfolding E_def M_def S by linarith
  then have "u * \<bar>y + d\<bar> \<le> u * (E + M)" using u by (rule mult_left_mono)
  with r have r': "\<bar>fl (y + d) - (y + d)\<bar> \<le> u * (E + M)" by linarith
  have "\<bar>fl (y + d) - (y0 + d * real (Suc n))\<bar> \<le> \<bar>fl (y + d) - (y + d)\<bar> + E"
    unfolding E_def S by linarith
  also have "\<dots> \<le> u * (E + M) + E" using r' by simp
  also have "\<dots> = (1 + u) * E + u * M" by (simp add: algebra_simps)
  also have "\<dots> \<le> (1 + u) * ((P - 1) * M) + u * M"
    using E u by (intro add_right_mono mult_left_mono) simp_all
  also have "\<dots> = ((1 + u) * P - 1) * M" by (simp add: algebra_simps)
  finally have "\<bar>fl (y + d) - (y0 + d * real (Suc n))\<bar> \<le> ((1 + u) ^ Suc n - 1) * M"
    by (simp add: P_def)
  then show ?case by (simp add: y_def M_def u_def)
qed

lemma rounded_accurate:
  "\<bar>roundedCos a - cos a\<bar> \<le> 1 / 2 ^ 52" "\<bar>roundedSin a - sin a\<bar> \<le> 1 / 2 ^ 52"
proof -
  have "\<bar>fl (cos a) - cos a\<bar> \<le> \<bar>cos a\<bar> / 2 ^ 53" by (rule fl_error)
  also have "\<dots> \<le> 1 / 2 ^ 53" by (intro divide_right_mono) simp_all
  also have "\<dots> \<le> (1::real) / 2 ^ 52" by simp
  finally show "\<bar>roundedCos a - cos a\<bar> \<le> 1 / 2 ^ 52" by (simp add: roundedCos_def)
  have "\<bar>fl (sin a) - sin a\<bar> \<le> \<bar>sin a\<bar> / 2 ^ 53" by (rule fl_error)
  also have "\<dots> \<le> 1 / 2 ^ 53" by (intro divide_right_mono) simp_all
  also have "\<dots> \<le> (1::real) / 2 ^ 52" by simp
  finally show "\<bar>roundedSin a - sin a\<bar> \<le> 1 / 2 ^ 52" by (simp add: roundedSin_def)
qed

lemma movePlanetIEEE_near_circle:
  assumes "\<And>a. \<bar>mathCos a - cos a\<bar> \<le> 1 / 2 ^ 52" and "\<And>a. \<bar>mathSin a - sin a\<bar> \<le> 1 / 2 ^ 52"
  shows "\<bar>(vx (position (mesh (movePlanetIEEE mathCos mathSin t p))))\<^sup>2
          + (vz (position (mesh (movePlanetIEEE mathCos mathSin t p))))\<^sup>2
          - (orbitRadius p)\<^sup>2\<bar> \<le> (orbitRadius p)\<^sup>2 / 2 ^ 48"
  unfolding movePlanetIEEE_xz by (rule near_circle) (rule assms)+

lemma pos_dyadic:
  assumes "0 < x"
  obtains m :: int and k :: nat where "0 < m" and "fl x = of_int m / 2 ^ k"
proof -
  from fl_dyadic [of x] obtain m :: int and k :: nat where e: "fl x = of_int m / 2 ^ k"
    by blast
  from assms have "0 < fl x" by (rule fl_pos)
  with e have "0 < (of_int m :: real) / 2 ^ k" by simp
  then have "0 < m" by (simp add: zero_less_divide_iff)
  then show ?thesis using e by (rule that)
qed

lemma venus_entry:
  "orbitRadius (addPlanetsIEEE (\<lambda>i. 0) ! 1) = 12"
  "speed (addPlanetsIEEE (\<lambda>i. 0) ! 1) = fl 0.014"
  "phase (addPlanetsIEEE (\<lambda>i. 0) ! 1) = 0"
  by (simp_all add: addPlanetsIEEE_def addPlanetIEEE_def planetData_def enumerate_eq_zip upt_rec
      fl_radii)

lemma venus_angle:
  "0 < fl (fl (fl (1000 * fl 0.014) * fl 0.0005) + 0)"
  "fl (fl (fl (1000 * fl 0.014) * fl 0.0005) + 0) < 1"
proof -
  have s: "0 < fl 0.014" "fl 0.014 \<le> 1001 / 1000 * 0.014"
    by (rule fl_pos, simp) (rule fl_upper, simp_all)
  have k: "0 < fl 0.0005" "fl 0.0005 \<le> 1001 / 1000 * 0.0005"
    by (rule fl_pos, simp) (rule fl_upper, simp_all)
  have a: "0 < fl (1000 * fl 0.014)" "fl (1000 * fl 0.014) \<le> 15"
  proof -
    show "0 < fl (1000 * fl 0.014)" using s(1) by (intro fl_pos) simp
    have "fl (1000 * fl 0.014) \<le> 1001 / 1000 * (1000 * (1001 / 1000 * 0.014))"
      using s by (intro fl_upper) simp_all
    then show "fl (1000 * fl 0.014) \<le> 15" by simp
  qed
  have b: "0 < fl (fl (1000 * fl 0.014) * fl 0.0005)" "fl (fl (1000 * fl 0.014) * fl 0.0005) \<le> 1 / 2"
  proof -
    show "0 < fl (fl (1000 * fl 0.014) * fl 0.0005)" using a(1) k(1) by (intro fl_pos) simp
    have "fl (1000 * fl 0.014) * fl 0.0005 \<le> 15 * (1001 / 1000 * 0.0005)"
      using a k by (intro mult_mono) simp_all
    moreover have "0 \<le> fl (1000 * fl 0.014) * fl 0.0005" using a(1) k(1) by simp
    ultimately have "fl (fl (1000 * fl 0.014) * fl 0.0005)
        \<le> 1001 / 1000 * (15 * (1001 / 1000 * 0.0005))"
      by (intro fl_upper)
    then show "fl (fl (1000 * fl 0.014) * fl 0.0005) \<le> 1 / 2" by simp
  qed
  show "0 < fl (fl (fl (1000 * fl 0.014) * fl 0.0005) + 0)" using b(1) by (intro fl_pos) simp
  have "fl (fl (fl (1000 * fl 0.014) * fl 0.0005) + 0) \<le> 1001 / 1000 * (1 / 2)"
    using b by (intro fl_upper) simp_all
  then show "fl (fl (fl (1000 * fl 0.014) * fl 0.0005) + 0) < 1" by simp
qed

text \<open>
  Venus (orbit radius 12), built with \<^verbatim>\<open>Math.random()\<close> returning 0, updated at
  time 1000 with a correctly rounded cosine and sine: the angle lies strictly between 0
  and 1, so both coordinates are positive doubles, and the sum of their squares is not
  144.
\<close>

theorem exact_orbit_counterexample:
  "orbitRadius (addPlanetsIEEE (\<lambda>i. 0) ! 1) = 12 \<and>
   (vx (position (mesh (movePlanetIEEE roundedCos roundedSin 1000 (addPlanetsIEEE (\<lambda>i. 0) ! 1)))))\<^sup>2
     + (vz (position (mesh (movePlanetIEEE roundedCos roundedSin 1000 (addPlanetsIEEE (\<lambda>i. 0) ! 1)))))\<^sup>2
     \<noteq> 12\<^sup>2"
proof -
  define a where "a = fl (fl (fl (1000 * fl 0.014) * fl 0.0005) + 0)"
  have a: "0 < a" "a < 1" unfolding a_def by (rule venus_angle)+
  have "1 \<le> pi / 2" using pi_ge_two by simp
  with a have "a < pi / 2" "a < pi" by simp_all
  with a(1) have c: "0 < cos a" and s: "0 < sin a"
    by (simp_all add: cos_gt_zero sin_gt_zero)
  from c have "0 < fl (cos a)" by (rule fl_pos)
  then have "0 < fl (cos a) * 12" by simp
  then obtain m j where m: "0 < m" "fl (fl (cos a) * 12) = of_int m / 2 ^ j"
    by (rule pos_dyadic)
  from s have "0 < fl (sin a)" by (rule fl_pos)
  then have "0 < fl (sin a) * 12" by simp
  then obtain n k where n: "0 < n" "fl (fl (sin a) * 12) = of_int n / 2 ^ k"
    by (rule pos_dyadic)
  have "(fl (fl (cos a) * 12))\<^sup>2 + (fl (fl (sin a) * 12))\<^sup>2 \<noteq> 12\<^sup>2"
    unfolding m(2) n(2) using m(1) n(1) by (rule no_dyadic_point_on_circle_12)
  then show ?thesis
    by (simp only: movePlanetIEEE_xz venus_entry roundedCos_def roundedSin_def a_def simp_thms)
qed

text \<open>
  Claim C1, as amended. With a \<^verbatim>\<open>Math.cos\<close> and a \<^verbatim>\<open>Math.sin\<close> that are
  accurate to \<open>2\<^sup>-\<^sup>5\<^sup>2\<close>, for the planets as \<^verbatim>\<open>addPlanets\<close> builds them
  (whatever the random numbers) and after any sequence of position updates ending with
  one at time \<open>t\<close>, each of the eight planets, row by row of \<open>planetData\<close>, has
  \<open>y = 0\<close> exactly and is on the circle of its descriptor's orbit radius up to rounding:
  \<open>x\<^sup>2 + z\<^sup>2\<close> differs from the square of the orbit radius by at most that square
  divided by \<open>2\<^sup>4\<^sup>8\<close>.
\<close>

theorem planets_near_orbit:
  assumes "\<And>a. \<bar>mathCos a - cos a\<bar> \<le> 1 / 2 ^ 52"
    and "\<And>a. \<bar>mathSin a - sin a\<bar> \<le> 1 / 2 ^ 52"
    and "planets s = addPlanetsIEEE rnd"
  shows "length planetData = 8 \<and>
         list_all2
           (\<lambda>d p. \<bar>(vx (position (mesh p)))\<^sup>2 + (vz (position (mesh p)))\<^sup>2 - (bodyOrbitRadius d)\<^sup>2\<bar>
                     \<le> (bodyOrbitRadius d)\<^sup>2 / 2 ^ 48 \<and>
                  vy (position (mesh p)) = 0)
           planetData
           (planets (foldl (\<lambda>s t. updatePositionsIEEE mathCos mathSin t s) s (ts @ [t])))"
proof -
  have "orbitsOk (planets s)" by (simp add: assms(3) orbitsOk_addPlanetsIEEE)
  then have "orbitsOk (planets (foldl (\<lambda>s t. updatePositionsIEEE mathCos mathSin t s) s ts))"
    by (rule orbitsOk_foldIEEE)
  then have "list_all2
      (\<lambda>d p. \<bar>(vx (position (mesh (movePlanetIEEE mathCos mathSin t p))))\<^sup>2
                + (vz (position (mesh (movePlanetIEEE mathCos mathSin t p))))\<^sup>2
                - (bodyOrbitRadius d)\<^sup>2\<bar> \<le> (bodyOrbitRadius d)\<^sup>2 / 2 ^ 48 \<and>
              vy (position (mesh (movePlanetIEEE mathCos mathSin t p))) = 0)
      planetData (planets (foldl (\<lambda>s t. updatePositionsIEEE mathCos mathSin t s) s ts))"
    unfolding orbitsOk_def
  proof (rule list_all2_mono)
    fix d :: descriptor and p :: planet
    assume "orbitRadius p = bodyOrbitRadius d \<and> vy (position (mesh p)) = 0"
    then show "\<bar>(vx (position (mesh (movePlanetIEEE mathCos mathSin t p))))\<^sup>2
                + (vz (position (mesh (movePlanetIEEE mathCos mathSin t p))))\<^sup>2
                - (bodyOrbitRadius d)\<^sup>2\<bar> \<le> (bodyOrbitRadius d)\<^sup>2 / 2 ^ 48 \<and>
              vy (position (mesh (movePlanetIEEE mathCos mathSin t p))) = 0"
      using movePlanetIEEE_near_circle [OF assms(1,2), of t p] by simp
  qed
  then show ?thesis
    by (simp add: length_planetData planets_updatePositionsIEEE list_all2_map2)
qed

theorem planets_near_orbit_witness:
  "(\<forall>a. \<bar>roundedCos a - cos a\<bar> \<le> 1 / 2 ^ 52) \<and>
   (\<forall>a. \<bar>roundedSin a - sin a\<bar> \<le> 1 / 2 ^ 52) \<and>
   planets (demoRunning\<lparr>planets := addPlanetsIEEE (\<lambda>i. 0)\<rparr>) = addPlanetsIEEE (\<lambda>i. 0) \<and>
   list_all2
     (\<lambda>d p. \<bar>(vx (position (mesh p)))\<^sup>2 + (vz (position (mesh p)))\<^sup>2 - (bodyOrbitRadius d)\<^sup>2\<bar>
               \<le> (bodyOrbitRadius d)\<^sup>2 / 2 ^ 48 \<and>
            vy (position (mesh p)) = 0)
     planetData
     (planets (foldl (\<lambda>s t. updatePositionsIEEE roundedCos roundedSin t s)
        (demoRunning\<lparr>planets := addPlanetsIEEE (\<lambda>i. 0)\<rparr>) ([16] @ [1000])))"
proof -
  have p: "planets (demoRunning\<lparr>planets := addPlanetsIEEE (\<lambda>i. 0)\<rparr>) = addPlanetsIEEE (\<lambda>i. 0)"
    by simp
  from planets_near_orbit [of roundedCos roundedSin, OF rounded_accurate p, of "[16]" 1000]
  show ?thesis by (simp only: rounded_accurate p simp_thms)
qed

subsection \<open>The sun's rotation in doubles\<close>

lemma fl_0002: "fl 0.002 = 1152921504606847 / 2 ^ 59"
  by (subst fl_eval [where e = "-9"]) (simp_all add: roundEven_def Let_def power_int_minus)

lemma fl_0002_times_10: "fl (1152921504606847 / 2 ^ 59 * 10) = 5764607523034235 / 2 ^ 58"
  by (subst fl_eval [where e = "-6"]) (simp_all add: roundEven_def Let_def power_int_minus)

lemma sun_steps:
  "fl (0 + 1152921504606847 / 2 ^ 59) = 1152921504606847 / 2 ^ 59"
  "fl (1152921504606847 / 2 ^ 59 + 1152921504606847 / 2 ^ 59) = 1152921504606847 / 2 ^ 58"
  "fl (1152921504606847 / 2 ^ 58 + 1152921504606847 / 2 ^ 59) = 3458764513820541 / 2 ^ 59"
  "fl (3458764513820541 / 2 ^ 59 + 1152921504606847 / 2 ^ 59) = 1152921504606847 / 2 ^ 57"
  "fl (1152921504606847 / 2 ^ 57 + 1152921504606847 / 2 ^ 59) = 5764607523034235 / 2 ^ 59"
  "fl (5764607523034235 / 2 ^ 59 + 1152921504606847 / 2 ^ 59) = 3458764513820541 / 2 ^ 58"
  "fl (3458764513820541 / 2 ^ 58 + 1152921504606847 / 2 ^ 59) = 8070450532247929 / 2 ^ 59"
  "fl (8070450532247929 / 2 ^ 59 + 1152921504606847 / 2 ^ 59) = 1152921504606847 / 2 ^ 56"
  "fl (1152921504606847 / 2 ^ 56 + 1152921504606847 / 2 ^ 59) = 1297036692682703 / 2 ^ 56"
  "fl (1297036692682703 / 2 ^ 56 + 1152921504606847 / 2 ^ 59) = 1441151880758559 / 2 ^ 56"
proof -
  show "fl (0 + 1152921504606847 / 2 ^ 59) = 1152921504606847 / 2 ^ 59"
    by (subst fl_eval [where e = "-9"]) (simp_all add: roundEven_def Let_def power_int_minus)
  show "fl (1152921504606847 / 2 ^ 59 + 1152921504606847 / 2 ^ 59) = 1152921504606847 / 2 ^ 58"
    by (subst fl_eval [where e = "-8"]) (simp_all add: roundEven_def Let_def power_int_minus)
  show "fl (1152921504606847 / 2 ^ 58 + 1152921504606847 / 2 ^ 59) = 3458764513820541 / 2 ^ 59"
    by (subst fl_eval [where e = "-8"]) (simp_all add: roundEven_def Let_def power_int_minus)
  show "fl (3458764513820541 / 2 ^ 59 + 1152921504606847 / 2 ^ 59) = 1152921504606847 / 2 ^ 57"
    by (subst fl_eval [where e = "-7"]) (simp_all add: roundEven_def Let_def power_int_minus)
  show "fl (1152921504606847 / 2 ^ 57 + 1152921504606847 / 2 ^ 59) = 5764607523034235 / 2 ^ 59"
    by (subst fl_eval [where e = "-7"]) (simp_all add: roundEven_def Let_def power_int_minus)
  show "fl (5764607523034235 / 2 ^ 59 + 1152921504606847 / 2 ^ 59) = 3458764513820541 / 2 ^ 58"
    by (subst fl_eval [where e = "-7"]) (simp_all add: roundEven_def Let_def power_int_minus)
  show "fl (3458764513820541 / 2 ^ 58 + 1152921504606847 / 2 ^ 59) = 8070450532247929 / 2 ^ 59"
    by (subst fl_eval [where e = "-7"]) (simp_all add: roundEven_def Let_def power_int_minus)
  show "fl (8070450532247929 / 2 ^ 59 + 1152921504606847 / 2 ^ 59) = 1152921504606847 / 2 ^ 56"
    by (subst fl_eval [where e = "-6"]) (simp_all add: roundEven_def Let_def power_int_minus)
  show "fl (1152921504606847 / 2 ^ 56 + 1152921504606847 / 2 ^ 59) = 1297036692682703 / 2 ^ 56"
    by (subst fl_eval [where e = "-6"]) (simp_all add: roundEven_def Let_def power_int_minus)
  show "fl (1297036692682703 / 2 ^ 56 + 1152921504606847 / 2 ^ 59) = 1441151880758559 / 2 ^ 56"
    by (subst fl_eval [where e = "-6"]) (simp_all add: roundEven_def Let_def power_int_minus)
qed

lemma fl_0002_nonneg: "0 \<le> fl 0.002"
  unfolding fl_0002 by simp

text \<open>
  Ten position updates from the state after startup, where the rotation is 0: the
  rotation is then \<open>1441151880758559 / 2\<^sup>5\<^sup>6\<close> (0.020000000000000004), which is
  neither the double product of 0.002 and 10 (0.02), nor ten times the double 0.002, nor
  the real number 0.02.
\<close>

theorem exact_rotation_counterexample:
  "sunRotationY demoRunning = 0 \<and>
   sunRotationY (foldl (\<lambda>s t. updatePositionsIEEE roundedCos roundedSin t s) demoRunning
       [16, 33, 50, 66, 83, 100, 116, 133, 150, 166])
     = 1441151880758559 / 2 ^ 56 \<and>
   fl (fl 0.002 * 10) = 5764607523034235 / 2 ^ 58 \<and>
   (1441151880758559 / 2 ^ 56 :: real) \<noteq> 5764607523034235 / 2 ^ 58 \<and>
   (1441151880758559 / 2 ^ 56 :: real) \<noteq> fl 0.002 * 10 \<and>
   (1441151880758559 / 2 ^ 56 :: real) \<noteq> 0.002 * 10"
proof -
  have z: "sunRotationY demoRunning = 0"
    by (simp add: demoRunning_def startAnimation_def requestAnimationFrame_def buildScene_def
        applySize_def Let_def)
  have ten: "sunRotationY (foldl (\<lambda>s t. updatePositionsIEEE roundedCos roundedSin t s) demoRunning
       [16, 33, 50, 66, 83, 100, 116, 133, 150, 166])
     = 1441151880758559 / 2 ^ 56"
    by (simp only: foldl_Cons foldl_Nil sun_updatePositionsIEEE z fl_0002 sun_steps)
  have prod: "fl (fl 0.002 * 10) = 5764607523034235 / 2 ^ 58"
    by (simp only: fl_0002 fl_0002_times_10)
  have ne: "(1441151880758559 / 2 ^ 56 :: real) \<noteq> 5764607523034235 / 2 ^ 58"
    "(1441151880758559 / 2 ^ 56 :: real) \<noteq> fl 0.002 * 10"
    "(1441151880758559 / 2 ^ 56 :: real) \<noteq> 0.002 * 10"
    unfolding fl_0002 by simp_all
  from z ten prod ne show ?thesis by (simp only: simp_thms)
qed

text \<open>
  Claim C7, as amended. Every position update adds the double 0.002 to the sun's rotation
  with one rounding, whatever the time passed: after one update for each time of a list
  \<open>ts\<close> of length \<open>n\<close> the rotation is the starting value with that rounded addition
  applied \<open>n\<close> times, so it depends on the number of updates only, and it differs from
  the starting value plus \<open>n\<close> times the double 0.002 by at most
  \<open>(1 + 2\<^sup>-\<^sup>5\<^sup>3)\<^sup>n - 1\<close> times the sum of the absolute starting value and \<open>n\<close>
  times the double 0.002. The planets
  after a further update at time \<open>t\<close> are those a single update at time \<open>t\<close>
  produces, so they depend on the latest time only.
\<close>

theorem sun_rotation_rounded:
  "fl 0.002 = 1152921504606847 / 2 ^ 59 \<and>
   sunRotationY (foldl (\<lambda>s t. updatePositionsIEEE mathCos mathSin t s) s ts)
     = ((\<lambda>y. fl (y + fl 0.002)) ^^ length ts) (sunRotationY s) \<and>
   \<bar>sunRotationY (foldl (\<lambda>s t. updatePositionsIEEE mathCos mathSin t s) s ts)
      - (sunRotationY s + fl 0.002 * real (length ts))\<bar>
     \<le> ((1 + 1 / 2 ^ 53) ^ length ts - 1) * (\<bar>sunRotationY s\<bar> + fl 0.002 * real (length ts)) \<and>
   planets (foldl (\<lambda>s t. updatePositionsIEEE mathCos mathSin t s) s (ts @ [t]))
     = planets (updatePositionsIEEE mathCos mathSin t s)"
proof (intro conjI)
  show "fl 0.002 = 1152921504606847 / 2 ^ 59" by (rule fl_0002)
  show "sunRotationY (foldl (\<lambda>s t. updatePositionsIEEE mathCos mathSin t s) s ts)
      = ((\<lambda>y. fl (y + fl 0.002)) ^^ length ts) (sunRotationY s)"
    by (rule sun_foldIEEE)
  show "\<bar>sunRotationY (foldl (\<lambda>s t. updatePositionsIEEE mathCos mathSin t s) s ts)
      - (sunRotationY s + fl 0.002 * real (length ts))\<bar>
     \<le> ((1 + 1 / 2 ^ 53) ^ length ts - 1) * (\<bar>sunRotationY s\<bar> + fl 0.002 * real (length ts))"
    unfolding sun_foldIEEE using fl_0002_nonneg by (rule accumulate_error)
  show "planets (foldl (\<lambda>s t. updatePositionsIEEE mathCos mathSin t s) s (ts @ [t]))
      = planets (updatePositionsIEEE mathCos mathSin t s)"
    by (rule planets_foldIEEE_last)
qed

end
